theory Spec2Isabelle
  imports Complex_Main "HOL-Library.Sublist"
begin

section \<open>The idaklu extension module: the binding layer of the DAE solver\<close>

text \<open>
  The source file \<^verbatim>\<open>pybamm/solvers/c_solvers/idaklu_python.cpp\<close> is the body of
  \<^verbatim>\<open>PYBIND11_MODULE(idaklu, m)\<close>: it registers one opaque vector type, two solve
  functions with their keyword arguments and return policy, and the class \<^verbatim>\<open>solution\<close>
  with four attributes. The module object \<^verbatim>\<open>m\<close> is mutated by every statement; here
  each statement is a function from the module to the updated module, and the module
  body is their composition in source order.
\<close>

subsection \<open>Values crossing the interface\<close>

text \<open>
  Host values, as far as the interface tells them apart. A one-dimensional array is a
  list of numbers, a two-dimensional one a list of rows, and \<open>PyArrays\<close> is a
  sequence of two-dimensional arrays.
\<close>

datatype pyval =
    PyNone
  | PyBool bool
  | PyInt int
  | PyFloat real
  | PyArray "real list"
  | PyArray2 "real list list"
  | PyArrays "real list list list"
  | PyCallable string

datatype py_error = TypeError | AttributeError

subsection \<open>The result record\<close>

text \<open>
  Modelled from the spec: the declaration of \<^verbatim>\<open>Solution\<close> (in \<^verbatim>\<open>idaklu.hpp\<close>, which
  is not among the sources). Section 3 of the specification gives its content: an ordered
  sequence of reached times \<^verbatim>\<open>t\<close>, an aligned sequence of state vectors \<^verbatim>\<open>y\<close>, a
  sequence of sensitivity blocks \<^verbatim>\<open>yS\<close> (one per time point, states by parameters) and
  an integer \<^verbatim>\<open>flag\<close>. The four member names are those the source binds.
\<close>

record Solution =
  t :: "real list"
  y :: "real list list"
  yS :: "real list list list"
  flag :: int

text \<open>
  Modelled from the spec: the invariant section 3 states for \<^verbatim>\<open>Solution\<close>, for a solve
  with \<open>p\<close> sensitivity parameters: \<^verbatim>\<open>len(t) == len(y)\<close>, and
  \<^verbatim>\<open>len(yS) == len(t)\<close> whenever sensitivities are requested, else \<^verbatim>\<open>yS\<close> is empty.
\<close>

definition Solution_inv :: "nat \<Rightarrow> Solution \<Rightarrow> bool" where
  "Solution_inv p s =
     (length (t s) = length (y s) \<and>
      (if 0 < p then length (yS s) = length (t s) else yS s = []))"

text \<open>The member pointers \<^verbatim>\<open>&Solution::t\<close>, ..., \<^verbatim>\<open>&Solution::flag\<close> of lines 48 to 51.\<close>

datatype Solution_member = Solution_t | Solution_y | Solution_yS | Solution_flag


text \<open>
  Writing a member converts the host value to the member's type and assigns it; a value
  of another type does not convert (\<open>None\<close>). Nothing but the member is touched and
  nothing is checked against the other members.
\<close>

fun member_set :: "Solution_member \<Rightarrow> pyval \<Rightarrow> Solution \<Rightarrow> Solution option" where
  "member_set Solution_t (PyArray v) s = Some (s\<lparr>t := v\<rparr>)"
| "member_set Solution_y (PyArray2 v) s = Some (s\<lparr>y := v\<rparr>)"
| "member_set Solution_yS (PyArrays v) s = Some (s\<lparr>yS := v\<rparr>)"
| "member_set Solution_flag (PyInt v) s = Some (s\<lparr>flag := v\<rparr>)"
| "member_set _ _ _ = None"

subsection \<open>What a module holds\<close>

text \<open>The return value policies of pybind11; the source uses \<open>take_ownership\<close>.\<close>

datatype return_value_policy =
    automatic | automatic_reference | take_ownership | copy | move
  | reference | reference_internal

text \<open>
  \<^verbatim>\<open>py::arg("name")\<close> is a named argument without a default value;
  \<^verbatim>\<open>py::arg("name") = v\<close> would carry one.
\<close>

record py_arg =
  arg_name :: string
  arg_default :: "pyval option"

definition arg :: "string \<Rightarrow> py_arg" where
  "arg n = \<lparr>arg_name = n, arg_default = None\<rparr>"

definition arg_v :: "string \<Rightarrow> pyval \<Rightarrow> py_arg" where
  "arg_v n v = \<lparr>arg_name = n, arg_default = Some v\<rparr>"

text \<open>One \<^verbatim>\<open>m.def\<close>: host name, bound C++ function, docstring, arguments, policy.\<close>

record function_record =
  fn_name :: string
  fn_impl :: string
  fn_doc :: string
  fn_args :: "py_arg list"
  fn_policy :: return_value_policy

text \<open>
  One attribute of a bound class: host name, member, and whether a setter is
  installed (\<^verbatim>\<open>def_readwrite\<close>) or not (\<^verbatim>\<open>def_readonly\<close>).
\<close>

record property_record =
  prop_name :: string
  prop_member :: Solution_member
  prop_writable :: bool

record class_record =
  cls_name :: string
  cls_type :: string
  cls_props :: "property_record list"

text \<open>C++ types, as far as the binding names them.\<close>

datatype cpp_type = np_array | cpp_int | cpp_vector cpp_type | cpp_class string

record module =
  mod_name :: string
  mod_doc :: string
  mod_opaque :: "cpp_type list"
  mod_vectors :: "(cpp_type \<times> string) list"
  mod_functions :: "function_record list"
  mod_classes :: "class_record list"

definition new_module :: "string \<Rightarrow> cpp_type list \<Rightarrow> module" where
  "new_module n opaque =
     \<lparr>mod_name = n, mod_doc = [], mod_opaque = opaque, mod_vectors = [],
      mod_functions = [], mod_classes = []\<rparr>"

definition set_doc :: "string \<Rightarrow> module \<Rightarrow> module" where
  "set_doc d m = m\<lparr>mod_doc := d\<rparr>"

definition bind_vector :: "cpp_type \<Rightarrow> string \<Rightarrow> module \<Rightarrow> module" where
  "bind_vector ty n m = m\<lparr>mod_vectors := mod_vectors m @ [(cpp_vector ty, n)]\<rparr>"

definition m_def ::
  "string \<Rightarrow> string \<Rightarrow> string \<Rightarrow> py_arg list \<Rightarrow> return_value_policy \<Rightarrow> module \<Rightarrow> module" where
  "m_def n impl doc as pol m =
     m\<lparr>mod_functions := mod_functions m @
        [\<lparr>fn_name = n, fn_impl = impl, fn_doc = doc, fn_args = as, fn_policy = pol\<rparr>]\<rparr>"

definition def_readwrite :: "string \<Rightarrow> Solution_member \<Rightarrow> class_record \<Rightarrow> class_record" where
  "def_readwrite n mem c =
     c\<lparr>cls_props := cls_props c @
        [\<lparr>prop_name = n, prop_member = mem, prop_writable = True\<rparr>]\<rparr>"

definition def_readonly :: "string \<Rightarrow> Solution_member \<Rightarrow> class_record \<Rightarrow> class_record" where
  "def_readonly n mem c =
     c\<lparr>cls_props := cls_props c @
        [\<lparr>prop_name = n, prop_member = mem, prop_writable = False\<rparr>]\<rparr>"

definition py_class :: "string \<Rightarrow> string \<Rightarrow> class_record" where
  "py_class ty n = \<lparr>cls_name = n, cls_type = ty, cls_props = []\<rparr>"

definition add_class :: "class_record \<Rightarrow> module \<Rightarrow> module" where
  "add_class c m = m\<lparr>mod_classes := mod_classes m @ [c]\<rparr>"

subsection \<open>The module body, statement by statement\<close>

text \<open>Lines 18 to 24: the arguments of \<^verbatim>\<open>solve_python\<close>, in source order.\<close>

definition solve_python_args :: "py_arg list" where
  "solve_python_args =
     [arg ''t'', arg ''y0'',
      arg ''yp0'', arg ''res'', arg ''jac'', arg ''sens'',
      arg ''get_jac_data'',
      arg ''get_jac_row_vals'', arg ''get_jac_col_ptr'', arg ''nnz'',
      arg ''events'', arg ''number_of_events'', arg ''use_jacobian'',
      arg ''rhs_alg_id'', arg ''atol'', arg ''rtol'',
      arg ''number_of_sensitivity_parameters'']"

text \<open>Lines 29 to 43: the arguments of \<^verbatim>\<open>solve_casadi\<close>, in source order.\<close>

definition solve_casadi_args :: "py_arg list" where
  "solve_casadi_args =
     [arg ''t'', arg ''y0'', arg ''yp0'',
      arg ''rhs_alg'',
      arg ''jac_times_cjmass'',
      arg ''jac_times_cjmass_rowvals'',
      arg ''jac_times_cjmass_colptrs'',
      arg ''jac_times_cjmass_nnz'',
      arg ''jac_action'',
      arg ''jacp_action'',
      arg ''mass_action'',
      arg ''sens'',
      arg ''events'', arg ''number_of_events'',
      arg ''use_jacobian'',
      arg ''rhs_alg_id'',
      arg ''atol'', arg ''rtol'',
      arg ''number_of_sensitivity_parameters'']"

text \<open>Lines 47 to 51: the class \<^verbatim>\<open>solution\<close> bound to \<^verbatim>\<open>Solution\<close>.\<close>

definition solution_class :: class_record where
  "solution_class =
     (def_readwrite ''flag'' Solution_flag \<circ>
      def_readwrite ''yS'' Solution_yS \<circ>
      def_readwrite ''y'' Solution_y \<circ>
      def_readwrite ''t'' Solution_t) (py_class ''Solution'' ''solution'')"

text \<open>
  Lines 9 to 52. \<^verbatim>\<open>PYBIND11_MAKE_OPAQUE(std::vector<np_array>)\<close> precedes the module;
  the body sets the docstring, binds the vector type, defines the two functions and
  the class. Composition applies the rightmost statement first.
\<close>

definition idaklu :: module where
  "idaklu =
     (add_class solution_class \<circ>
      m_def ''solve_casadi'' ''solve_casadi'' ''The solve function for casadi evaluators''
        solve_casadi_args take_ownership \<circ>
      m_def ''solve_python'' ''solve_python'' ''The solve function for python evaluators''
        solve_python_args take_ownership \<circ>
      bind_vector np_array ''VectorNdArray'' \<circ>
      set_doc ''sundials solvers'')
     (new_module ''idaklu'' [cpp_vector np_array])"

subsection \<open>Calling a bound function\<close>

text \<open>
  The dispatcher of a bound function without \<^verbatim>\<open>*args\<close> or \<^verbatim>\<open>**kwargs\<close>: more
  positional values than arguments is refused; the positional values fill the first
  arguments; each remaining argument takes the keyword of its name, else its default
  value, else the call is refused; a keyword left over is refused. A refused call
  raises \<^verbatim>\<open>TypeError\<close>. The values themselves are not looked at here.
\<close>

fun fill_args ::
  "py_arg list \<Rightarrow> (string \<times> pyval) list \<Rightarrow> (pyval list \<times> (string \<times> pyval) list) option" where
  "fill_args [] kw = Some ([], kw)"
| "fill_args (a # as) kw =
     (case map_of kw (arg_name a) of
        Some v \<Rightarrow>
          (case fill_args as (filter (\<lambda>e. fst e \<noteq> arg_name a) kw) of
             None \<Rightarrow> None
           | Some (vs, rest) \<Rightarrow> Some (v # vs, rest))
      | None \<Rightarrow>
          (case arg_default a of
             None \<Rightarrow> None
           | Some d \<Rightarrow>
               (case fill_args as kw of
                  None \<Rightarrow> None
                | Some (vs, rest) \<Rightarrow> Some (d # vs, rest))))"

definition dispatch ::
  "function_record \<Rightarrow> pyval list \<Rightarrow> (string \<times> pyval) list \<Rightarrow> py_error + pyval list" where
  "dispatch f pos kw =
     (if length (fn_args f) < length pos then Inl TypeError
      else case fill_args (drop (length pos) (fn_args f)) kw of
             None \<Rightarrow> Inl TypeError
           | Some (vs, rest) \<Rightarrow> if rest = [] then Inr (pos @ vs) else Inl TypeError)"

text \<open>The functions a module exposes under a name, in definition order.\<close>

definition overloads :: "module \<Rightarrow> string \<Rightarrow> function_record list" where
  "overloads m n = filter (\<lambda>f. fn_name f = n) (mod_functions m)"

definition solve_python_binding :: function_record where
  "solve_python_binding = hd (overloads idaklu ''solve_python'')"

definition solve_casadi_binding :: function_record where
  "solve_casadi_binding = hd (overloads idaklu ''solve_casadi'')"

subsection \<open>Attributes of a bound object\<close>

text \<open>A later definition of the same attribute name replaces an earlier one.\<close>

definition find_prop :: "class_record \<Rightarrow> string \<Rightarrow> property_record option" where
  "find_prop c n = find (\<lambda>p. prop_name p = n) (rev (cls_props c))"


text \<open>
  Assignment goes through the setter of a bound attribute. The class is bound without
  \<^verbatim>\<open>py::dynamic_attr()\<close>, so its objects take no new attributes: a name that is not
  bound is refused, and so is an attribute bound read-only.
\<close>

definition py_setattr ::
  "class_record \<Rightarrow> string \<Rightarrow> pyval \<Rightarrow> Solution \<Rightarrow> py_error + Solution" where
  "py_setattr c n v s =
     (case find_prop c n of
        None \<Rightarrow> Inl AttributeError
      | Some p \<Rightarrow>
          if prop_writable p then
            (case member_set (prop_member p) v s of
               None \<Rightarrow> Inl TypeError
             | Some s' \<Rightarrow> Inr s')
          else Inl AttributeError)"

subsection \<open>Ownership of a returned object\<close>



subsection \<open>What the bound functions return\<close>




subsection \<open>Reading the argument names\<close>

text \<open>
  The part each bound argument plays, after section 6 of the specification: the common
  parameters, the sensitivity and event callables, and the residual and Jacobian
  providers of either variant. A name the source does not bind has no reading.
\<close>

datatype param_role =
    OutputTimes | InitialState | InitialDerivative
  | Provider | SensitivityCallable | EventFunctions | EventCount
  | JacobianMode | AlgDiffMask | AbsTolerance | RelTolerance | SensParamCount

definition role_table :: "(string \<times> param_role) list" where
  "role_table =
     [(''t'', OutputTimes), (''y0'', InitialState), (''yp0'', InitialDerivative),
      (''res'', Provider), (''jac'', Provider), (''sens'', SensitivityCallable),
      (''get_jac_data'', Provider), (''get_jac_row_vals'', Provider),
      (''get_jac_col_ptr'', Provider), (''nnz'', Provider),
      (''rhs_alg'', Provider), (''jac_times_cjmass'', Provider),
      (''jac_times_cjmass_rowvals'', Provider), (''jac_times_cjmass_colptrs'', Provider),
      (''jac_times_cjmass_nnz'', Provider), (''jac_action'', Provider),
      (''jacp_action'', Provider), (''mass_action'', Provider),
      (''events'', EventFunctions), (''number_of_events'', EventCount),
      (''use_jacobian'', JacobianMode), (''rhs_alg_id'', AlgDiffMask),
      (''atol'', AbsTolerance), (''rtol'', RelTolerance),
      (''number_of_sensitivity_parameters'', SensParamCount)]"

definition role_of :: "string \<Rightarrow> param_role option" where
  "role_of n = map_of role_table n"

definition arg_names :: "function_record \<Rightarrow> string list" where
  "arg_names f = map arg_name (fn_args f)"

text \<open>
  A cancel flag, token or callback handed to a solve would be an argument with none of
  these readings; \<open>has_unlisted_input\<close> says that a function takes such an argument.
\<close>

definition has_unlisted_input :: "function_record \<Rightarrow> bool" where
  "has_unlisted_input f = list_ex (\<lambda>n. role_of n = None) (arg_names f)"

section \<open>The integration engine behind the two functions\<close>

text \<open>
  Modelled from the spec: the bodies of \<^verbatim>\<open>solve_python\<close> and \<^verbatim>\<open>solve_casadi\<close>
  (declared in \<^verbatim>\<open>idaklu.hpp\<close> and \<^verbatim>\<open>idaklu_casadi.hpp\<close>; neither they nor their
  implementations are among the sources). Everything in this section follows sections
  3, 4 and 7 of the specification. The numerical work of one stretch of integration
  (Newton iteration, error control, root location, sensitivity update) is floating-point
  computation driven by the host callbacks; it enters as a parameter, the
  \<open>stepper\<close>, and the definitions below are the control flow around it.
\<close>

subsection \<open>Problem data\<close>

datatype abs_tol = ScalarTol real | VectorTol "real list"

text \<open>
  Modelled from the spec: \<^verbatim>\<open>ProblemSpec\<close> of section 3 with the common parameters of
  section 6 and the declared structure of the sparse Jacobian (nonzero count, row
  indices, column pointers).
\<close>

record ProblemSpec =
  ps_times :: "real list"
  ps_y0 :: "real list"
  ps_yp0 :: "real list"
  ps_nnz :: nat
  ps_row_vals :: "nat list"
  ps_col_ptr :: "nat list"
  ps_number_of_events :: nat
  ps_use_jacobian :: bool
  ps_rhs_alg_id :: "bool list"
  ps_atol :: abs_tol
  ps_rtol :: real
  ps_number_of_sensitivity_parameters :: nat

subsection \<open>The stepper as a parameter\<close>

text \<open>
  Modelled from the spec: the error taxonomy of section 7. A configuration or
  initialization error ends the solve without a \<^verbatim>\<open>Solution\<close>; the other kinds end
  it in the state \<^verbatim>\<open>Failed\<close>, with the trajectory accumulated so far.
\<close>

datatype solve_error = ConfigurationError | InitializationError

datatype failure = NumericalError | ConvergenceFailure | CancellationError

text \<open>
  Modelled from the spec: what one stretch of stepping towards the next requested
  output time ends in (section 4.2): the output time is reached, with the state vector
  and the sensitivity block there; an event crossing is found first (section 4.4: event
  index, crossing time, state and block at the crossing); or retries are exhausted or a
  cancel request is seen. The first component is the stepper's new working state.
\<close>

datatype 'st outcome =
    Reached 'st "real list" "real list list"
  | Crossing nat real 'st "real list" "real list list"
  | Exhausted failure

text \<open>
  Modelled from the spec: the parts of the engine that compute. \<open>accepts\<close> is the
  configuration check made before integration starts (section 7; the specification
  names what it rejects, malformed tolerances, mismatched array lengths and an
  inconsistent sparse structure, without defining them); \<open>initialise\<close> computes the
  consistent initial condition, \<open>None\<close> when there is none; \<open>advance\<close> steps
  towards a target time; \<open>is_terminal\<close> is the per-event terminal flag.
\<close>

record 'st stepper =
  accepts :: "ProblemSpec \<Rightarrow> bool"
  initialise :: "ProblemSpec \<Rightarrow> 'st option"
  advance :: "ProblemSpec \<Rightarrow> 'st \<Rightarrow> real \<Rightarrow> 'st outcome"
  is_terminal :: "nat \<Rightarrow> bool"

subsection \<open>The output aggregator\<close>

text \<open>
  Modelled from the spec: the terminal states (section 4.2) and their status
  (section 4.5): 0 for all output times reached, negative for a failure kind, positive
  for an event-triggered stop. The specification fixes the sign only; the magnitude
  numbers the failure kind or the event.
\<close>

datatype exit_state = Converged | Failed failure | EventStop nat real

fun failure_code :: "failure \<Rightarrow> int" where
  "failure_code NumericalError = 1"
| "failure_code ConvergenceFailure = 2"
| "failure_code CancellationError = 3"

fun exit_flag :: "exit_state \<Rightarrow> int" where
  "exit_flag Converged = 0"
| "exit_flag (Failed k) = - failure_code k"
| "exit_flag (EventStop i te) = 1 + int i"

definition empty_solution :: Solution where
  "empty_solution = \<lparr>t = [], y = [], yS = [], flag = 0\<rparr>"

text \<open>
  Modelled from the spec: one append of the aggregator (section 4.5): a time and a state
  vector, and a sensitivity block when the parameter count \<open>p\<close> is positive.
\<close>

definition append_point ::
  "nat \<Rightarrow> real \<Rightarrow> real list \<Rightarrow> real list list \<Rightarrow> Solution \<Rightarrow> Solution" where
  "append_point p tm yv sb s =
     s\<lparr>t := t s @ [tm], y := y s @ [yv],
       yS := (if 0 < p then yS s @ [sb] else yS s)\<rparr>"

definition finish :: "exit_state \<Rightarrow> Solution \<Rightarrow> Solution" where
  "finish e s = s\<lparr>flag := exit_flag e\<rparr>"

subsection \<open>The solve loop\<close>

text \<open>
  Modelled from the spec: the state machine of section 4.2 around the stepper. The
  requested output times are taken in order. A reached output time is appended and the
  next one becomes the target. An event crossing before the target either stops the
  solve, the crossing appended (a terminal event), or restarts from the crossing with
  the same target. A failure stops the solve with what has been accumulated. Nothing
  bounds the number of restarts, so the loop carries fuel: \<open>None\<close> is a solve still
  running when the fuel is spent.
\<close>

fun run ::
  "nat \<Rightarrow> 'st stepper \<Rightarrow> ProblemSpec \<Rightarrow> 'st \<Rightarrow> real list \<Rightarrow> Solution \<Rightarrow>
     (exit_state \<times> Solution) option" where
  "run n K ps st [] s = Some (Converged, s)"
| "run 0 K ps st (tm # ts) s = None"
| "run (Suc n) K ps st (tm # ts) s =
     (case advance K ps st tm of
        Reached st' yv sb \<Rightarrow>
          run n K ps st' ts
            (append_point (ps_number_of_sensitivity_parameters ps) tm yv sb s)
      | Crossing i te st' yv sb \<Rightarrow>
          if is_terminal K i
          then Some (EventStop i te,
                 append_point (ps_number_of_sensitivity_parameters ps) te yv sb s)
          else run n K ps st' (tm # ts) s
      | Exhausted k \<Rightarrow> Some (Failed k, s))"

text \<open>
  Modelled from the spec: a whole solve. The configuration is checked first
  (section 7), then the consistent initial condition is computed (state
  \<^verbatim>\<open>Initializing\<close>), then the loop runs from an empty trajectory.
\<close>

definition integrate ::
  "nat \<Rightarrow> 'st stepper \<Rightarrow> ProblemSpec \<Rightarrow> (solve_error + exit_state \<times> Solution) option" where
  "integrate n K ps =
     (if \<not> accepts K ps then Some (Inl ConfigurationError)
      else case initialise K ps of
             None \<Rightarrow> Some (Inl InitializationError)
           | Some st \<Rightarrow>
               (case run n K ps st (ps_times ps) empty_solution of
                  None \<Rightarrow> None
                | Some r \<Rightarrow> Some (Inr r)))"

definition solve :: "nat \<Rightarrow> 'st stepper \<Rightarrow> ProblemSpec \<Rightarrow> (solve_error + Solution) option" where
  "solve n K ps =
     (case integrate n K ps of
        None \<Rightarrow> None
      | Some (Inl err) \<Rightarrow> Some (Inl err)
      | Some (Inr (e, s)) \<Rightarrow> Some (Inr (finish e s)))"

subsection \<open>What a trajectory is made of\<close>

text \<open>
  An entry of the trajectory: a time, the state vector and the sensitivity block there.
  \<open>append_all\<close> appends entries one after the other.
\<close>

type_synonym entry = "real \<times> real list \<times> real list list"

fun append_all :: "nat \<Rightarrow> entry list \<Rightarrow> Solution \<Rightarrow> Solution" where
  "append_all p [] s = s"
| "append_all p (en # es) s =
     append_all p es (append_point p (fst en) (fst (snd en)) (snd (snd en)) s)"

text \<open>
  Where an entry comes from: the stepper reached the requested output time of the entry
  with its state and block (an accepted step), or it reported the entry as the crossing
  of a terminal event while heading for the target \<open>tgt\<close>.
\<close>

definition reached :: "'st stepper \<Rightarrow> ProblemSpec \<Rightarrow> entry \<Rightarrow> bool" where
  "reached K ps en =
     (\<exists>st0 st1. advance K ps st0 (fst en) = Reached st1 (fst (snd en)) (snd (snd en)))"

definition terminal_crossing ::
  "'st stepper \<Rightarrow> ProblemSpec \<Rightarrow> real \<Rightarrow> nat \<Rightarrow> entry \<Rightarrow> bool" where
  "terminal_crossing K ps tgt i en =
     (is_terminal K i \<and>
      (\<exists>st0 st1. advance K ps st0 tgt = Crossing i (fst en) st1 (fst (snd en)) (snd (snd en))))"

definition accepted_entry :: "'st stepper \<Rightarrow> ProblemSpec \<Rightarrow> entry \<Rightarrow> bool" where
  "accepted_entry K ps en =
     (reached K ps en \<or> (\<exists>tgt i. terminal_crossing K ps tgt i en))"

text \<open>
  Modelled from the spec: an event crossing is one found before the next requested
  output time (section 4.2), located within the step (section 4.4).
\<close>

definition crossings_before_target :: "'st stepper \<Rightarrow> ProblemSpec \<Rightarrow> bool" where
  "crossings_before_target K ps =
     (\<forall>st tm i te st' yv sb. advance K ps st tm = Crossing i te st' yv sb \<longrightarrow> te < tm)"

text \<open>
  How a solve that returned \<open>sol\<close> ended, told from the stepper and the trajectory:
  in a failure of kind \<open>k\<close> reported on the way to the \<open>j\<close>-th requested time, the
  trajectory being the requested times before it; or stopped by the terminal event
  \<open>i\<close> crossing at \<open>te\<close> on the way to the \<open>j\<close>-th requested time, the trajectory
  being the requested times before it and then the crossing.
\<close>

definition ended_in_failure :: "'st stepper \<Rightarrow> ProblemSpec \<Rightarrow> Solution \<Rightarrow> bool" where
  "ended_in_failure K ps sol =
     (\<exists>j k st0. j < length (ps_times ps) \<and>
        advance K ps st0 (ps_times ps ! j) = Exhausted k \<and>
        t sol = take j (ps_times ps) \<and> flag sol = - failure_code k)"

definition stopped_by_terminal_event :: "'st stepper \<Rightarrow> ProblemSpec \<Rightarrow> Solution \<Rightarrow> bool" where
  "stopped_by_terminal_event K ps sol =
     (\<exists>j i te st0 st1 yv sb. j < length (ps_times ps) \<and> is_terminal K i \<and>
        advance K ps st0 (ps_times ps ! j) = Crossing i te st1 yv sb \<and>
        t sol = take j (ps_times ps) @ [te] \<and> last (y sol) = yv \<and>
        flag sol = 1 + int i)"

text \<open>
  An external cancel request raised at time \<open>c\<close>, seen by the stepper on any stretch
  towards a target at or after \<open>c\<close>.
\<close>

definition cancel_at :: "real \<Rightarrow> 'st stepper \<Rightarrow> 'st stepper" where
  "cancel_at c K =
     K\<lparr>advance := (\<lambda>ps st tm.
          if c \<le> tm then Exhausted CancellationError else advance K ps st tm)\<rparr>"

subsection \<open>An example problem\<close>

text \<open>
  A problem the theorems below are instantiated at, solvable in exact arithmetic: one
  state falling at rate one half from 1, an event function \<open>y - 1/4\<close> (crossing at
  time \<open>3/2\<close>), zero sensitivities. The stepper state is the current time and value;
  \<open>stop\<close> says whether the event is terminal.
\<close>

definition ramp_stepper :: "bool \<Rightarrow> (real \<times> real) stepper" where
  "ramp_stepper stop =
     \<lparr>accepts = (\<lambda>ps. length (ps_yp0 ps) = length (ps_y0 ps) \<and> 0 \<le> ps_rtol ps),
      initialise = (\<lambda>ps. case ps_y0 ps of [v] \<Rightarrow> Some (0, v) | _ \<Rightarrow> None),
      advance = (\<lambda>ps st tm.
        let v = snd st; w = v - (tm - fst st) / 2; te = fst st + 2 * (v - 1 / 4);
            blk = [replicate (ps_number_of_sensitivity_parameters ps) 0]
        in if 0 < ps_number_of_events ps \<and> 1 / 4 < v \<and> w < 1 / 4
           then Crossing 0 te (te, 1 / 4) [1 / 4] blk
           else Reached (tm, w) [w] blk),
      is_terminal = (\<lambda>i. stop)\<rparr>"

definition ramp_problem :: "nat \<Rightarrow> nat \<Rightarrow> ProblemSpec" where
  "ramp_problem ne p =
     \<lparr>ps_times = [0, 1, 2], ps_y0 = [1], ps_yp0 = [- 1 / 2],
      ps_nnz = 1, ps_row_vals = [0], ps_col_ptr = [0, 1],
      ps_number_of_events = ne, ps_use_jacobian = True, ps_rhs_alg_id = [True],
      ps_atol = ScalarTol (1 / 100), ps_rtol = 1 / 100,
      ps_number_of_sensitivity_parameters = p\<rparr>"

section \<open>Facts about the module\<close>

lemma idaklu_functions:
  "mod_functions idaklu =
     [\<lparr>fn_name = ''solve_python'', fn_impl = ''solve_python'',
       fn_doc = ''The solve function for python evaluators'',
       fn_args = solve_python_args, fn_policy = take_ownership\<rparr>,
      \<lparr>fn_name = ''solve_casadi'', fn_impl = ''solve_casadi'',
       fn_doc = ''The solve function for casadi evaluators'',
       fn_args = solve_casadi_args, fn_policy = take_ownership\<rparr>]"
  by (simp add: idaklu_def add_class_def m_def_def bind_vector_def set_doc_def new_module_def)


lemma idaklu_vectors:
  "mod_vectors idaklu = [(cpp_vector np_array, ''VectorNdArray'')]"
  "mod_opaque idaklu = [cpp_vector np_array]"
  by (simp_all add: idaklu_def add_class_def m_def_def bind_vector_def set_doc_def new_module_def)

lemma solve_python_binding_eq:
  "solve_python_binding =
     \<lparr>fn_name = ''solve_python'', fn_impl = ''solve_python'',
       fn_doc = ''The solve function for python evaluators'',
       fn_args = solve_python_args, fn_policy = take_ownership\<rparr>"
  by (simp add: solve_python_binding_def overloads_def idaklu_functions)

lemma solve_casadi_binding_eq:
  "solve_casadi_binding =
     \<lparr>fn_name = ''solve_casadi'', fn_impl = ''solve_casadi'',
       fn_doc = ''The solve function for casadi evaluators'',
       fn_args = solve_casadi_args, fn_policy = take_ownership\<rparr>"
  by (simp add: solve_casadi_binding_def overloads_def idaklu_functions)

lemma python_names:
  "arg_names solve_python_binding =
     [''t'', ''y0'', ''yp0'', ''res'', ''jac'', ''sens'', ''get_jac_data'',
      ''get_jac_row_vals'', ''get_jac_col_ptr'', ''nnz'', ''events'',
      ''number_of_events'', ''use_jacobian'', ''rhs_alg_id'', ''atol'', ''rtol'',
      ''number_of_sensitivity_parameters'']"
  by (simp add: arg_names_def solve_python_binding_eq solve_python_args_def arg_def)

lemma casadi_names:
  "arg_names solve_casadi_binding =
     [''t'', ''y0'', ''yp0'', ''rhs_alg'', ''jac_times_cjmass'',
      ''jac_times_cjmass_rowvals'', ''jac_times_cjmass_colptrs'',
      ''jac_times_cjmass_nnz'', ''jac_action'', ''jacp_action'', ''mass_action'',
      ''sens'', ''events'', ''number_of_events'', ''use_jacobian'', ''rhs_alg_id'',
      ''atol'', ''rtol'', ''number_of_sensitivity_parameters'']"
  by (simp add: arg_names_def solve_casadi_binding_eq solve_casadi_args_def arg_def)

lemma solution_props:
  "cls_props solution_class =
     [\<lparr>prop_name = ''t'', prop_member = Solution_t, prop_writable = True\<rparr>,
      \<lparr>prop_name = ''y'', prop_member = Solution_y, prop_writable = True\<rparr>,
      \<lparr>prop_name = ''yS'', prop_member = Solution_yS, prop_writable = True\<rparr>,
      \<lparr>prop_name = ''flag'', prop_member = Solution_flag, prop_writable = True\<rparr>]"
  by (simp add: solution_class_def def_readwrite_def py_class_def)

lemma find_prop_solution:
  "find_prop solution_class ''t'' = Some \<lparr>prop_name = ''t'', prop_member = Solution_t, prop_writable = True\<rparr>"
  "find_prop solution_class ''y'' = Some \<lparr>prop_name = ''y'', prop_member = Solution_y, prop_writable = True\<rparr>"
  "find_prop solution_class ''yS'' = Some \<lparr>prop_name = ''yS'', prop_member = Solution_yS, prop_writable = True\<rparr>"
  "find_prop solution_class ''flag'' = Some \<lparr>prop_name = ''flag'', prop_member = Solution_flag, prop_writable = True\<rparr>"
  by (simp_all add: find_prop_def solution_props)

lemma setattr_solution:
  "py_setattr solution_class ''t'' (PyArray a) s = Inr (s\<lparr>t := a\<rparr>)"
  "py_setattr solution_class ''y'' (PyArray2 b) s = Inr (s\<lparr>y := b\<rparr>)"
  "py_setattr solution_class ''yS'' (PyArrays c) s = Inr (s\<lparr>yS := c\<rparr>)"
  "py_setattr solution_class ''flag'' (PyInt d) s = Inr (s\<lparr>flag := d\<rparr>)"
  by (simp_all add: py_setattr_def find_prop_solution)

lemma fill_args_mandatory:
  "fill_args as kw = Some (vs, rest) \<Longrightarrow> list_all (\<lambda>a. arg_default a = None) as \<Longrightarrow>
   set (map arg_name as) \<subseteq> fst ` set kw \<and> length vs = length as"
proof (induction as arbitrary: kw vs rest)
  case Nil
  then show ?case by simp
next
  case (Cons a as)
  from Cons.prems obtain v where v: "map_of kw (arg_name a) = Some v"
    by (cases "map_of kw (arg_name a)") auto
  with Cons.prems obtain vs' where
    rec: "fill_args as (filter (\<lambda>e. fst e \<noteq> arg_name a) kw) = Some (vs', rest)" and vs: "vs = v # vs'"
    by (auto split: option.splits)
  from Cons.IH [OF rec] Cons.prems(2)
  have "set (map arg_name as) \<subseteq> fst ` set (filter (\<lambda>e. fst e \<noteq> arg_name a) kw)"
    and "length vs' = length as" by simp_all
  moreover have "arg_name a \<in> fst ` set kw"
    using v by (metis map_of_SomeD fst_conv image_eqI)
  ultimately show ?case using vs by auto
qed

lemma all_mandatory:
  "list_all (\<lambda>a. arg_default a = None) (fn_args solve_python_binding)"
  "list_all (\<lambda>a. arg_default a = None) (fn_args solve_casadi_binding)"
  by (simp_all add: solve_python_binding_eq solve_casadi_binding_eq solve_python_args_def
        solve_casadi_args_def arg_def)

section \<open>Facts about the engine\<close>

lemma append_point_inv:
  "Solution_inv p s \<Longrightarrow> Solution_inv p (append_point p tm yv sb s)"
  by (simp add: Solution_inv_def append_point_def)

lemma append_point_prefix:
  "prefix (t s) (t (append_point p tm yv sb s))"
  "prefix (y s) (y (append_point p tm yv sb s))"
  "prefix (yS s) (yS (append_point p tm yv sb s))"
  by (simp_all add: append_point_def)

lemma append_point_fields:
  "t (append_point p tm yv sb s) = t s @ [tm]"
  "y (append_point p tm yv sb s) = y s @ [yv]"
  "flag (append_point p tm yv sb s) = flag s"
  by (simp_all add: append_point_def)

lemma run_inv:
  "run n K ps st ts s = Some (e, s') \<Longrightarrow>
   Solution_inv (ps_number_of_sensitivity_parameters ps) s \<Longrightarrow>
   Solution_inv (ps_number_of_sensitivity_parameters ps) s'"
proof (induction n K ps st ts s rule: run.induct)
  case (1 n K ps st s)
  then show ?case by simp
next
  case (2 K ps st tm ts s)
  then show ?case by simp
next
  case (3 n K ps st tm ts s)
  show ?case
  proof (cases "advance K ps st tm")
    case (Reached st' yv sb)
    with 3 show ?thesis by (simp add: append_point_inv)
  next
    case (Crossing i te st' yv sb)
    with 3 show ?thesis by (auto simp: append_point_inv split: if_splits)
  next
    case (Exhausted k)
    with 3 show ?thesis by simp
  qed
qed

lemma failure_code_pos: "0 < failure_code k"
  by (cases k) simp_all

lemma exit_flag_sign:
  "(exit_flag e = 0) = (e = Converged)"
  "(exit_flag e < 0) = (\<exists>k. e = Failed k)"
  "(0 < exit_flag e) = (\<exists>i te. e = EventStop i te)"
proof -
  show "(exit_flag e = 0) = (e = Converged)"
    using failure_code_pos by (cases e) (auto simp: less_le)
  show "(exit_flag e < 0) = (\<exists>k. e = Failed k)"
    using failure_code_pos by (cases e) auto
  show "(0 < exit_flag e) = (\<exists>i te. e = EventStop i te)"
    using failure_code_pos by (cases e) (auto simp: not_less less_imp_le)
qed

lemma ramp_valid: "accepts (ramp_stepper stop) (ramp_problem ne p)"
  by (simp add: ramp_stepper_def ramp_problem_def)

lemma ramp_run_stop:
  "integrate 3 (ramp_stepper True) (ramp_problem 1 0) =
     Some (Inr (EventStop 0 (3 / 2),
       \<lparr>t = [0, 1, 3 / 2], y = [[1], [1 / 2], [1 / 4]], yS = [], flag = 0\<rparr>))"
  by (simp add: integrate_def ramp_valid)
     (simp add: ramp_problem_def ramp_stepper_def eval_nat_numeral append_point_def
        empty_solution_def Let_def)

lemma ramp_run_restart:
  "integrate 4 (ramp_stepper False) (ramp_problem 1 1) =
     Some (Inr (Converged,
       \<lparr>t = [0, 1, 2], y = [[1], [1 / 2], [0]], yS = [[[0]], [[0]], [[0]]], flag = 0\<rparr>))"
  by (simp add: integrate_def ramp_valid)
     (simp add: ramp_problem_def ramp_stepper_def eval_nat_numeral append_point_def
        empty_solution_def Let_def)

lemma ramp_run_fuel:
  "integrate 3 (ramp_stepper False) (ramp_problem 1 1) = None"
  by (simp add: integrate_def ramp_valid)
     (simp add: ramp_problem_def ramp_stepper_def eval_nat_numeral append_point_def
        empty_solution_def Let_def)

lemma empty_inv: "Solution_inv p empty_solution"
  by (simp add: Solution_inv_def empty_solution_def)

lemma finish_inv: "Solution_inv p (finish e s) = Solution_inv p s"
  by (simp add: Solution_inv_def finish_def)

lemma finish_fields:
  "t (finish e s) = t s" "y (finish e s) = y s" "yS (finish e s) = yS s"
  "flag (finish e s) = exit_flag e"
  by (simp_all add: finish_def)

lemma solve_Inr:
  "solve n K ps = Some (Inr sol) \<Longrightarrow>
   \<exists>st e s. accepts K ps \<and> initialise K ps = Some st \<and>
     run n K ps st (ps_times ps) empty_solution = Some (e, s) \<and> sol = finish e s"
  by (auto simp: solve_def integrate_def split: if_splits option.splits sum.splits)

lemma integrate_Inr:
  "integrate n K ps = Some (Inr (e, s)) \<Longrightarrow>
   \<exists>st. accepts K ps \<and> initialise K ps = Some st \<and>
     run n K ps st (ps_times ps) empty_solution = Some (e, s)"
  by (auto simp: integrate_def split: if_splits option.splits)

section \<open>How a solve ends and what it returns\<close>

lemma append_all_fields:
  "t (append_all p es s) = t s @ map fst es"
  "y (append_all p es s) = y s @ map (\<lambda>en. fst (snd en)) es"
  "yS (append_all p es s) = (if 0 < p then yS s @ map (\<lambda>en. snd (snd en)) es else yS s)"
  "flag (append_all p es s) = flag s"
  by (induction es arbitrary: s; simp add: append_point_def)+

lemma append_all_snoc:
  "append_all p (es @ [en]) s =
     append_point p (fst en) (fst (snd en)) (snd (snd en)) (append_all p es s)"
  by (induction es arbitrary: s) simp_all

lemma run_converged:
  "run n K ps st ts s = Some (Converged, s') \<Longrightarrow>
   \<exists>es. s' = append_all (ps_number_of_sensitivity_parameters ps) es s \<and>
        map fst es = ts \<and> list_all (reached K ps) es"
proof (induction n K ps st ts s rule: run.induct)
  case (1 n K ps st s)
  then have "s' = append_all (ps_number_of_sensitivity_parameters ps) [] s" by simp
  then show ?case by (intro exI [of _ "[]"]) simp
next
  case (2 K ps st tm ts s)
  then show ?case by simp
next
  case (3 n K ps st tm ts s)
  show ?case
  proof (cases "advance K ps st tm")
    case (Reached st' yv sb)
    with "3.prems" have r: "run n K ps st' ts
        (append_point (ps_number_of_sensitivity_parameters ps) tm yv sb s) = Some (Converged, s')"
      by simp
    from "3.IH"(1) [OF Reached r] obtain es where
      es: "s' = append_all (ps_number_of_sensitivity_parameters ps) es
             (append_point (ps_number_of_sensitivity_parameters ps) tm yv sb s)"
        "map fst es = ts" "list_all (reached K ps) es"
      by blast
    have "reached K ps (tm, yv, sb)"
      using Reached by (auto simp: reached_def)
    with es show ?thesis
      by (intro exI [of _ "(tm, yv, sb) # es"]) simp
  next
    case (Crossing i te st' yv sb)
    with "3.prems" have nt: "\<not> is_terminal K i" and r: "run n K ps st' (tm # ts) s = Some (Converged, s')"
      by (auto split: if_splits)
    from "3.IH"(2) [OF Crossing nt r] show ?thesis .
  next
    case (Exhausted k)
    with "3.prems" show ?thesis by simp
  qed
qed

lemma run_failed:
  "run n K ps st ts s = Some (Failed k, s') \<Longrightarrow>
   \<exists>j es st0. j < length ts \<and>
      s' = append_all (ps_number_of_sensitivity_parameters ps) es s \<and>
      map fst es = take j ts \<and> list_all (reached K ps) es \<and>
      advance K ps st0 (ts ! j) = Exhausted k"
proof (induction n K ps st ts s rule: run.induct)
  case (1 n K ps st s)
  then show ?case by simp
next
  case (2 K ps st tm ts s)
  then show ?case by simp
next
  case (3 n K ps st tm ts s)
  show ?case
  proof (cases "advance K ps st tm")
    case (Reached st' yv sb)
    with "3.prems" have r: "run n K ps st' ts
        (append_point (ps_number_of_sensitivity_parameters ps) tm yv sb s) = Some (Failed k, s')"
      by simp
    from "3.IH"(1) [OF Reached r] obtain j es st0 where
      es: "j < length ts"
        "s' = append_all (ps_number_of_sensitivity_parameters ps) es
             (append_point (ps_number_of_sensitivity_parameters ps) tm yv sb s)"
        "map fst es = take j ts" "list_all (reached K ps) es"
        "advance K ps st0 (ts ! j) = Exhausted k"
      by blast
    have "reached K ps (tm, yv, sb)"
      using Reached by (auto simp: reached_def)
    with es show ?thesis
      by (intro exI [of _ "Suc j"] exI [of _ "(tm, yv, sb) # es"] exI [of _ st0]) simp
  next
    case (Crossing i te st' yv sb)
    with "3.prems" have nt: "\<not> is_terminal K i" and r: "run n K ps st' (tm # ts) s = Some (Failed k, s')"
      by (auto split: if_splits)
    from "3.IH"(2) [OF Crossing nt r] show ?thesis .
  next
    case (Exhausted k')
    with "3.prems" have "k' = k" "s' = s" by simp_all
    with Exhausted show ?thesis
      by (intro exI [of _ 0] exI [of _ "[]"] exI [of _ st]) simp
  qed
qed

lemma run_eventstop:
  "run n K ps st ts s = Some (EventStop i te, s') \<Longrightarrow>
   \<exists>j es st0 st1 yv sb. j < length ts \<and>
      s' = append_all (ps_number_of_sensitivity_parameters ps) (es @ [(te, yv, sb)]) s \<and>
      map fst es = take j ts \<and> list_all (reached K ps) es \<and>
      advance K ps st0 (ts ! j) = Crossing i te st1 yv sb \<and> is_terminal K i"
proof (induction n K ps st ts s rule: run.induct)
  case (1 n K ps st s)
  then show ?case by simp
next
  case (2 K ps st tm ts s)
  then show ?case by simp
next
  case (3 n K ps st tm ts s)
  show ?case
  proof (cases "advance K ps st tm")
    case (Reached st' yv sb)
    with "3.prems" have r: "run n K ps st' ts
        (append_point (ps_number_of_sensitivity_parameters ps) tm yv sb s) = Some (EventStop i te, s')"
      by simp
    from "3.IH"(1) [OF Reached r] obtain j es st0 st1 yv' sb' where
      es: "j < length ts"
        "s' = append_all (ps_number_of_sensitivity_parameters ps) (es @ [(te, yv', sb')])
             (append_point (ps_number_of_sensitivity_parameters ps) tm yv sb s)"
        "map fst es = take j ts" "list_all (reached K ps) es"
        "advance K ps st0 (ts ! j) = Crossing i te st1 yv' sb'" "is_terminal K i"
      by blast
    have "reached K ps (tm, yv, sb)"
      using Reached by (auto simp: reached_def)
    with es show ?thesis
      by (intro exI [of _ "Suc j"] exI [of _ "(tm, yv, sb) # es"] exI [of _ st0]
            exI [of _ st1] exI [of _ yv'] exI [of _ sb']) simp
  next
    case (Crossing i' te' st' yv sb)
    show ?thesis
    proof (cases "is_terminal K i'")
      case True
      with "3.prems" Crossing have eq: "i' = i" "te' = te"
        "s' = append_point (ps_number_of_sensitivity_parameters ps) te yv sb s"
        by auto
      with Crossing True show ?thesis
        by (intro exI [of _ 0] exI [of _ "[]"] exI [of _ st] exI [of _ st']
              exI [of _ yv] exI [of _ sb]) simp
    next
      case False
      with "3.prems" Crossing have r: "run n K ps st' (tm # ts) s = Some (EventStop i te, s')"
        by simp
      from "3.IH"(2) [OF Crossing False r] show ?thesis .
    qed
  next
    case (Exhausted k)
    with "3.prems" show ?thesis by simp
  qed
qed

lemma take_snoc_differs:
  assumes "j < length ts" "(te::real) < ts ! j"
  shows "take j ts @ [te] \<noteq> take j' ts"
proof
  assume eq: "take j ts @ [te] = take j' ts"
  then have "length (take j ts @ [te]) = length (take j' ts)" by simp
  with assms(1) have j': "j < j'" by simp
  from eq have "(take j ts @ [te]) ! j = take j' ts ! j" by simp
  with assms(1) j' have "te = ts ! j" by (simp add: nth_append)
  with assms(2) show False by simp
qed

lemma take_snoc_not_all:
  assumes "j < length ts" "(te::real) < ts ! j"
  shows "take j ts @ [te] \<noteq> ts"
  using take_snoc_differs [OF assms, of "length ts"] by simp

lemma ramp_crossings: "crossings_before_target (ramp_stepper stop) ps"
  unfolding crossings_before_target_def
proof (intro allI impI)
  fix st tm i te st' yv sb
  assume "advance (ramp_stepper stop) ps st tm = Crossing i te st' yv sb"
  then have "te = fst st + 2 * (snd st - 1 / 4) \<and> snd st - (tm - fst st) / 2 < 1 / 4"
    by (simp add: ramp_stepper_def Let_def split: if_splits)
  then show "te < tm" by argo
qed

lemma empty_fields:
  "t empty_solution = []" "y empty_solution = []" "yS empty_solution = []"
  "flag empty_solution = 0"
  by (simp_all add: empty_solution_def)


lemma accepted_reached: "reached K ps en \<Longrightarrow> accepted_entry K ps en"
  by (simp add: accepted_entry_def)

lemma list_all_accepted: "list_all (reached K ps) es \<Longrightarrow> list_all (accepted_entry K ps) es"
  by (induction es) (simp_all add: accepted_reached)

text \<open>What a run from the empty trajectory ends with.\<close>

lemma run_built:
  assumes "run n K ps st (ps_times ps) empty_solution = Some (e, s)"
  shows "\<exists>es. finish e s =
        (append_all (ps_number_of_sensitivity_parameters ps) es empty_solution)
          \<lparr>flag := flag (finish e s)\<rparr> \<and>
      list_all (accepted_entry K ps) es \<and>
      (flag (finish e s) = 0 \<and> map fst es = ps_times ps \<or>
       ended_in_failure K ps (finish e s) \<or>
       stopped_by_terminal_event K ps (finish e s))"
proof (cases e)
  case Converged
  from run_converged [OF assms [unfolded Converged]] obtain es where
    "s = append_all (ps_number_of_sensitivity_parameters ps) es empty_solution"
    "map fst es = ps_times ps" "list_all (reached K ps) es" by blast
  then show ?thesis
    by (intro exI [of _ es]) (simp add: finish_def list_all_accepted Converged)
next
  case (Failed k)
  from run_failed [OF assms [unfolded Failed]] obtain j es st0 where
    es: "j < length (ps_times ps)"
      "s = append_all (ps_number_of_sensitivity_parameters ps) es empty_solution"
      "map fst es = take j (ps_times ps)"
      "list_all (reached K ps) es"
      "advance K ps st0 (ps_times ps ! j) = Exhausted k" by blast
  have "t (finish e s) = take j (ps_times ps)" "flag (finish e s) = - failure_code k"
    using es(2,3) by (simp_all add: finish_fields append_all_fields empty_fields Failed)
  with es(1,5) have "ended_in_failure K ps (finish e s)"
    unfolding ended_in_failure_def by blast
  with es(2,4) show ?thesis
    by (intro exI [of _ es]) (simp add: finish_def list_all_accepted)
next
  case (EventStop i te)
  from run_eventstop [OF assms [unfolded EventStop]] obtain j es st0 st1 yv sb where
    es: "s = append_all (ps_number_of_sensitivity_parameters ps) (es @ [(te, yv, sb)]) empty_solution"
      "list_all (reached K ps) es"
      "advance K ps st0 (ps_times ps ! j) = Crossing i te st1 yv sb" "is_terminal K i"
      and j: "j < length (ps_times ps)" and m: "map fst es = take j (ps_times ps)"
    by blast
  have "t (finish e s) = take j (ps_times ps) @ [te]" "flag (finish e s) = 1 + int i"
    "last (y (finish e s)) = yv"
    using es(1) m by (simp_all add: finish_fields append_all_fields empty_fields EventStop)
  with j es(3,4) have stop: "stopped_by_terminal_event K ps (finish e s)"
    unfolding stopped_by_terminal_event_def by blast
  have "terminal_crossing K ps (ps_times ps ! j) i (te, yv, sb)"
    using es(3,4) by (auto simp: terminal_crossing_def)
  then have "accepted_entry K ps (te, yv, sb)"
    by (auto simp: accepted_entry_def)
  with stop show ?thesis
    using es(1,2)
    by (intro exI [of _ "es @ [(te, yv, sb)]"]) (simp add: finish_def list_all_accepted)
qed



lemma flag_forward:
  assumes "solve n K ps = Some (Inr sol)"
  shows "(flag sol = 0 \<longrightarrow> t sol = ps_times ps) \<and>
    (flag sol < 0 \<longrightarrow> ended_in_failure K ps sol) \<and>
    (0 < flag sol \<longrightarrow> stopped_by_terminal_event K ps sol)"
proof -
  from solve_Inr [OF assms] obtain st e s where
    r: "run n K ps st (ps_times ps) empty_solution = Some (e, s)" and sol: "sol = finish e s"
    by blast
  from run_built [OF r] obtain es where
    b: "sol = (append_all (ps_number_of_sensitivity_parameters ps) es empty_solution)
          \<lparr>flag := flag sol\<rparr>"
    and c: "flag sol = 0 \<and> map fst es = ps_times ps \<or>
       ended_in_failure K ps sol \<or> stopped_by_terminal_event K ps sol"
    unfolding sol by blast
  from b have "t sol = t (append_all (ps_number_of_sensitivity_parameters ps) es empty_solution)"
    by (metis Solution.select_convs(1) Solution.surjective Solution.update_convs(4))
  then have ts: "t sol = map fst es"
    by (simp add: append_all_fields empty_fields)
  have f: "flag sol < 0" if "ended_in_failure K ps sol"
    using that failure_code_pos unfolding ended_in_failure_def by fastforce
  have g: "0 < flag sol" if "stopped_by_terminal_event K ps sol"
    using that unfolding stopped_by_terminal_event_def by fastforce
  from c ts f g show ?thesis by fastforce
qed

lemma flag_iff:
  assumes "solve n K ps = Some (Inr sol)" "crossings_before_target K ps"
  shows "(flag sol = 0) = (t sol = ps_times ps) \<and>
    (flag sol < 0) = ended_in_failure K ps sol \<and>
    (0 < flag sol) = stopped_by_terminal_event K ps sol"
proof -
  from solve_Inr [OF assms(1)] obtain st e s where
    r: "run n K ps st (ps_times ps) empty_solution = Some (e, s)" and sol: "sol = finish e s"
    by blast
  have cross: "te < ps_times ps ! j"
    if "advance K ps st0 (ps_times ps ! j) = Crossing i te st1 yv sb" for st0 j i te st1 yv sb
    using assms(2) that unfolding crossings_before_target_def by blast
  have no_stop: "\<not> stopped_by_terminal_event K ps sol" if "\<exists>j'. t sol = take j' (ps_times ps)"
  proof
    assume "stopped_by_terminal_event K ps sol"
    then obtain j i te st0 st1 yv sb where
      "j < length (ps_times ps)"
      "advance K ps st0 (ps_times ps ! j) = Crossing i te st1 yv sb"
      "t sol = take j (ps_times ps) @ [te]"
      unfolding stopped_by_terminal_event_def by blast
    with that take_snoc_differs [OF this(1) cross [OF this(2)]] show False by metis
  qed
  have no_fail: "\<not> ended_in_failure K ps sol" if "t sol = ps_times ps"
  proof
    assume "ended_in_failure K ps sol"
    then obtain j where "j < length (ps_times ps)" "t sol = take j (ps_times ps)"
      unfolding ended_in_failure_def by blast
    with that have "length (take j (ps_times ps)) = length (ps_times ps)" by simp
    with \<open>j < length (ps_times ps)\<close> show False by simp
  qed
  show ?thesis
  proof (cases e)
    case Converged
    from run_converged [OF r [unfolded Converged]] obtain es where
      "s = append_all (ps_number_of_sensitivity_parameters ps) es empty_solution"
      "map fst es = ps_times ps" by blast
    then have ts: "t sol = ps_times ps" and fl: "flag sol = 0"
      by (simp_all add: sol finish_fields append_all_fields empty_fields Converged)
    have "\<exists>j'. t sol = take j' (ps_times ps)"
      using ts by (intro exI [of _ "length (ps_times ps)"]) simp
    from no_stop [OF this] no_fail [OF ts] ts fl show ?thesis by simp
  next
    case (Failed k)
    from run_failed [OF r [unfolded Failed]] obtain j es st0 where
      j: "j < length (ps_times ps)" and
      s: "s = append_all (ps_number_of_sensitivity_parameters ps) es empty_solution" and
      m: "map fst es = take j (ps_times ps)" and
      a: "advance K ps st0 (ps_times ps ! j) = Exhausted k" by blast
    have ts: "t sol = take j (ps_times ps)" and fl: "flag sol = - failure_code k"
      using s m by (simp_all add: sol finish_fields append_all_fields empty_fields Failed)
    have neg: "flag sol < 0" using fl failure_code_pos [of k] by simp
    have ne: "t sol \<noteq> ps_times ps"
    proof
      assume "t sol = ps_times ps"
      with ts have "length (take j (ps_times ps)) = length (ps_times ps)" by simp
      with j show False by simp
    qed
    have fail: "ended_in_failure K ps sol"
      unfolding ended_in_failure_def using j a ts fl by blast
    have "\<not> stopped_by_terminal_event K ps sol"
      using no_stop ts by blast
    with neg ne fail show ?thesis by simp
  next
    case (EventStop i te)
    from run_eventstop [OF r [unfolded EventStop]] obtain j es st0 st1 yv sb where
      j: "j < length (ps_times ps)" and
      s: "s = append_all (ps_number_of_sensitivity_parameters ps) (es @ [(te, yv, sb)]) empty_solution" and
      m: "map fst es = take j (ps_times ps)" and
      a: "advance K ps st0 (ps_times ps ! j) = Crossing i te st1 yv sb" and
      tm: "is_terminal K i" by blast
    have ts: "t sol = take j (ps_times ps) @ [te]" and fl: "flag sol = 1 + int i"
      and ly: "last (y sol) = yv"
      using s m by (simp_all add: sol finish_fields append_all_fields empty_fields EventStop)
    have pos: "0 < flag sol" using fl by simp
    have ne: "t sol \<noteq> ps_times ps"
      using take_snoc_not_all [OF j cross [OF a]] ts by simp
    have stop: "stopped_by_terminal_event K ps sol"
      unfolding stopped_by_terminal_event_def using j a ts fl ly tm by blast
    have "\<not> ended_in_failure K ps sol"
    proof
      assume "ended_in_failure K ps sol"
      then obtain j' where "t sol = take j' (ps_times ps)"
        unfolding ended_in_failure_def by blast
      with ts take_snoc_differs [OF j cross [OF a], of j'] show False by simp
    qed
    with pos ne stop show ?thesis by simp
  qed
qed

lemma cancel_status: "exit_flag (Failed k) = - 3 \<Longrightarrow> k = CancellationError"
  by (cases k) simp_all

lemma ramp_solve_restart:
  "solve 4 (ramp_stepper False) (ramp_problem 1 1) =
     Some (Inr \<lparr>t = [0, 1, 2], y = [[1], [1 / 2], [0]], yS = [[[0]], [[0]], [[0]]], flag = 0\<rparr>)"
  unfolding solve_def ramp_run_restart by (simp add: finish_def)

lemma ramp_solve_stop:
  "solve 3 (ramp_stepper True) (ramp_problem 1 0) =
     Some (Inr \<lparr>t = [0, 1, 3 / 2], y = [[1], [1 / 2], [1 / 4]], yS = [], flag = 1\<rparr>)"
  unfolding solve_def ramp_run_stop by (simp add: finish_def)




section \<open>The claims\<close>

text \<open>
  Claim C2. There are exactly two solve entry points. They share a common parameter
  surface (output times, initial state and derivative, event functions and count,
  Jacobian-mode flag, algebraic/differential mask, absolute and relative tolerance,
  sensitivity-parameter count; also the sensitivity callable), under the same names and
  in the same order, and every argument that only one of them has is a residual or
  Jacobian provider.
\<close>

theorem two_entry_points_common_surface:
  "map fn_name (mod_functions idaklu) = [''solve_python'', ''solve_casadi''] \<and>
   filter (\<lambda>n. n \<in> set (arg_names solve_casadi_binding)) (arg_names solve_python_binding) =
     [''t'', ''y0'', ''yp0'', ''sens'', ''events'', ''number_of_events'', ''use_jacobian'',
      ''rhs_alg_id'', ''atol'', ''rtol'', ''number_of_sensitivity_parameters''] \<and>
   filter (\<lambda>n. n \<in> set (arg_names solve_python_binding)) (arg_names solve_casadi_binding) =
     [''t'', ''y0'', ''yp0'', ''sens'', ''events'', ''number_of_events'', ''use_jacobian'',
      ''rhs_alg_id'', ''atol'', ''rtol'', ''number_of_sensitivity_parameters''] \<and>
   map role_of
     [''t'', ''y0'', ''yp0'', ''sens'', ''events'', ''number_of_events'', ''use_jacobian'',
      ''rhs_alg_id'', ''atol'', ''rtol'', ''number_of_sensitivity_parameters''] =
     map Some
       [OutputTimes, InitialState, InitialDerivative, SensitivityCallable, EventFunctions,
        EventCount, JacobianMode, AlgDiffMask, AbsTolerance, RelTolerance, SensParamCount] \<and>
   list_all (\<lambda>n. role_of n = Some Provider)
     (filter (\<lambda>n. n \<notin> set (arg_names solve_casadi_binding)) (arg_names solve_python_binding)) \<and>
   list_all (\<lambda>n. role_of n = Some Provider)
     (filter (\<lambda>n. n \<notin> set (arg_names solve_python_binding)) (arg_names solve_casadi_binding))"
  by (simp add: idaklu_functions python_names casadi_names role_of_def role_table_def)

text \<open>
  Claim C7, as stated, says that a cancellation input is part of the solve interface.
  Neither entry point takes an argument beyond the problem data, the callables and
  providers, the tolerances and the counts.
\<close>

theorem no_cancellation_input:
  "\<not> (has_unlisted_input solve_python_binding \<or> has_unlisted_input solve_casadi_binding)"
  by (simp add: has_unlisted_input_def python_names casadi_names role_of_def role_table_def)

text \<open>
  Claim C7, amended. A cancel request seen by the stepper ends the solve at once, at any
  point of the loop and whatever is still requested: the exit state is the cancellation
  failure, whose status -3 no other failure kind has, and the trajectory is the one
  accumulated so far. But the solve interface has no cancellation input: the arguments
  of \<^verbatim>\<open>solve_python\<close> and \<^verbatim>\<open>solve_casadi\<close> are exactly the seventeen and
  nineteen bound names, each of them problem data, a callable or provider, a tolerance
  or a count.
\<close>

theorem solve_interface_has_no_cancellation_input:
  assumes "advance K ps st tm = Exhausted CancellationError"
  shows "run (Suc n) K ps st (tm # ts) s = Some (Failed CancellationError, s) \<and>
    flag (finish (Failed CancellationError) s) = - 3 \<and>
    (\<forall>k. exit_flag (Failed k) = - 3 \<longrightarrow> k = CancellationError) \<and>
    t (finish (Failed CancellationError) s) = t s \<and>
    y (finish (Failed CancellationError) s) = y s \<and>
    yS (finish (Failed CancellationError) s) = yS s \<and>
    map arg_names (mod_functions idaklu) =
     [[''t'', ''y0'', ''yp0'', ''res'', ''jac'', ''sens'', ''get_jac_data'',
       ''get_jac_row_vals'', ''get_jac_col_ptr'', ''nnz'', ''events'',
       ''number_of_events'', ''use_jacobian'', ''rhs_alg_id'', ''atol'', ''rtol'',
       ''number_of_sensitivity_parameters''],
      [''t'', ''y0'', ''yp0'', ''rhs_alg'', ''jac_times_cjmass'',
       ''jac_times_cjmass_rowvals'', ''jac_times_cjmass_colptrs'',
       ''jac_times_cjmass_nnz'', ''jac_action'', ''jacp_action'', ''mass_action'',
       ''sens'', ''events'', ''number_of_events'', ''use_jacobian'', ''rhs_alg_id'',
       ''atol'', ''rtol'', ''number_of_sensitivity_parameters'']] \<and>
    list_all (\<lambda>f. list_all (\<lambda>a. role_of a \<noteq> None) (arg_names f) \<and> \<not> has_unlisted_input f)
      (mod_functions idaklu)"
proof -
  have "run (Suc n) K ps st (tm # ts) s = Some (Failed CancellationError, s)"
    using assms by simp
  moreover have "map arg_names (mod_functions idaklu) =
     [[''t'', ''y0'', ''yp0'', ''res'', ''jac'', ''sens'', ''get_jac_data'',
       ''get_jac_row_vals'', ''get_jac_col_ptr'', ''nnz'', ''events'',
       ''number_of_events'', ''use_jacobian'', ''rhs_alg_id'', ''atol'', ''rtol'',
       ''number_of_sensitivity_parameters''],
      [''t'', ''y0'', ''yp0'', ''rhs_alg'', ''jac_times_cjmass'',
       ''jac_times_cjmass_rowvals'', ''jac_times_cjmass_colptrs'',
       ''jac_times_cjmass_nnz'', ''jac_action'', ''jacp_action'', ''mass_action'',
       ''sens'', ''events'', ''number_of_events'', ''use_jacobian'', ''rhs_alg_id'',
       ''atol'', ''rtol'', ''number_of_sensitivity_parameters'']] \<and>
    list_all (\<lambda>f. list_all (\<lambda>a. role_of a \<noteq> None) (arg_names f) \<and> \<not> has_unlisted_input f)
      (mod_functions idaklu)"
    by (simp add: idaklu_functions arg_names_def solve_python_args_def solve_casadi_args_def
        arg_def has_unlisted_input_def role_of_def role_table_def)
  ultimately show ?thesis using cancel_status by (simp add: finish_def)
qed

theorem solve_interface_has_no_cancellation_input_witness:
  "advance (cancel_at (3 / 2) (ramp_stepper False)) (ramp_problem 0 0) (1, 1 / 2) 2 =
     Exhausted CancellationError \<and>
   run (Suc 0) (cancel_at (3 / 2) (ramp_stepper False)) (ramp_problem 0 0) (1, 1 / 2) [2]
     \<lparr>t = [0, 1], y = [[1], [1 / 2]], yS = [], flag = 0\<rparr> =
     Some (Failed CancellationError, \<lparr>t = [0, 1], y = [[1], [1 / 2]], yS = [], flag = 0\<rparr>) \<and>
   solve 3 (cancel_at (3 / 2) (ramp_stepper False)) (ramp_problem 0 0) =
     Some (Inr \<lparr>t = [0, 1], y = [[1], [1 / 2]], yS = [], flag = - 3\<rparr>)"
proof -
  have h: "advance (cancel_at (3 / 2) (ramp_stepper False)) (ramp_problem 0 0) (1, 1 / 2) 2 =
     Exhausted CancellationError"
    by (simp add: cancel_at_def)
  have s: "solve 3 (cancel_at (3 / 2) (ramp_stepper False)) (ramp_problem 0 0) =
     Some (Inr \<lparr>t = [0, 1], y = [[1], [1 / 2]], yS = [], flag = - 3\<rparr>)"
    by (simp add: solve_def integrate_def cancel_at_def ramp_stepper_def ramp_problem_def
          eval_nat_numeral append_point_def empty_solution_def finish_def Let_def)
  from solve_interface_has_no_cancellation_input [OF h, of 0 "[]" "\<lparr>t = [0, 1], y = [[1], [1 / 2]], yS = [], flag = 0\<rparr>"]
  have "run (Suc 0) (cancel_at (3 / 2) (ramp_stepper False)) (ramp_problem 0 0) (1, 1 / 2) [2]
     \<lparr>t = [0, 1], y = [[1], [1 / 2]], yS = [], flag = 0\<rparr> =
     Some (Failed CancellationError, \<lparr>t = [0, 1], y = [[1], [1 / 2]], yS = [], flag = 0\<rparr>)"
    by (rule conjunct1)
  with h s show ?thesis by blast
qed

text \<open>
  Claim C8. All four attributes of a returned \<^verbatim>\<open>Solution\<close> are read-write: for any
  solution satisfying the alignment invariant, assigning a longer \<^verbatim>\<open>t\<close>, \<^verbatim>\<open>y\<close> or
  \<^verbatim>\<open>yS\<close> succeeds and leaves a record that violates the invariant; \<^verbatim>\<open>flag\<close> can
  be assigned as well. Nothing is checked on assignment.
\<close>

theorem fields_writable_invariant_breakable:
  assumes "Solution_inv p s"
  shows "map prop_name (cls_props solution_class) = [''t'', ''y'', ''yS'', ''flag''] \<and>
    list_all prop_writable (cls_props solution_class) \<and>
    py_setattr solution_class ''t'' (PyArray (0 # t s)) s = Inr (s\<lparr>t := 0 # t s\<rparr>) \<and>
    \<not> Solution_inv p (s\<lparr>t := 0 # t s\<rparr>) \<and>
    py_setattr solution_class ''y'' (PyArray2 ([] # y s)) s = Inr (s\<lparr>y := [] # y s\<rparr>) \<and>
    \<not> Solution_inv p (s\<lparr>y := [] # y s\<rparr>) \<and>
    py_setattr solution_class ''yS'' (PyArrays ([] # yS s)) s = Inr (s\<lparr>yS := [] # yS s\<rparr>) \<and>
    \<not> Solution_inv p (s\<lparr>yS := [] # yS s\<rparr>) \<and>
    py_setattr solution_class ''flag'' (PyInt (flag s + 1)) s = Inr (s\<lparr>flag := flag s + 1\<rparr>)"
proof -
  have names: "map prop_name (cls_props solution_class) = [''t'', ''y'', ''yS'', ''flag'']"
    by (simp add: solution_props)
  have rw: "list_all prop_writable (cls_props solution_class)"
    by (simp add: solution_props)
  have len: "length (t s) = length (y s)"
    using assms by (simp add: Solution_inv_def)
  have bt: "\<not> Solution_inv p (s\<lparr>t := 0 # t s\<rparr>)"
    using len by (simp add: Solution_inv_def)
  have bY: "\<not> Solution_inv p (s\<lparr>y := [] # y s\<rparr>)"
    using len by (simp add: Solution_inv_def)
  have bS: "\<not> Solution_inv p (s\<lparr>yS := [] # yS s\<rparr>)"
    using assms by (simp add: Solution_inv_def split: if_splits)
  show ?thesis
    using names rw bt bY bS by (simp add: setattr_solution)
qed

theorem fields_writable_invariant_breakable_witness:
  "Solution_inv 1 \<lparr>t = [0, 1], y = [[1], [2]], yS = [[[0]], [[1]]], flag = 0\<rparr> \<and>
   py_setattr solution_class ''t'' (PyArray [0, 0, 1])
     \<lparr>t = [0, 1], y = [[1], [2]], yS = [[[0]], [[1]]], flag = 0\<rparr> =
     Inr \<lparr>t = [0, 0, 1], y = [[1], [2]], yS = [[[0]], [[1]]], flag = 0\<rparr> \<and>
   \<not> Solution_inv 1 \<lparr>t = [0, 0, 1], y = [[1], [2]], yS = [[[0]], [[1]]], flag = 0\<rparr>"
proof -
  have h: "Solution_inv 1 \<lparr>t = [0, 1], y = [[1], [2]], yS = [[[0]], [[1]]], flag = 0\<rparr>"
    by (simp add: Solution_inv_def)
  show ?thesis using h fields_writable_invariant_breakable [OF h] by simp
qed

text \<open>
  Claim C10. No argument of either entry point has a default value, so a call that
  leaves any argument out, positionally and by keyword, is refused with
  \<^verbatim>\<open>TypeError\<close>, whatever the values of the other arguments: the Jacobian structure
  providers must be passed also when \<^verbatim>\<open>use_jacobian\<close> is false.
\<close>

theorem every_parameter_mandatory:
  assumes "f = solve_python_binding \<or> f = solve_casadi_binding"
  shows "list_all (\<lambda>a. arg_default a = None) (fn_args f) \<and>
    (\<forall>pos kw. list_ex (\<lambda>n. n \<notin> fst ` set kw) (drop (length pos) (arg_names f)) \<longrightarrow>
       dispatch f pos kw = Inl TypeError)"
proof -
  have m: "list_all (\<lambda>a. arg_default a = None) (fn_args f)"
    using assms all_mandatory by auto
  have "dispatch f pos kw = Inl TypeError"
    if ex: "list_ex (\<lambda>n. n \<notin> fst ` set kw) (drop (length pos) (arg_names f))" for pos kw
  proof (cases "fill_args (drop (length pos) (fn_args f)) kw")
    case None
    then show ?thesis by (simp add: dispatch_def)
  next
    case (Some r)
    obtain vs rest where r: "r = (vs, rest)" by (cases r)
    have "list_all (\<lambda>a. arg_default a = None) (drop (length pos) (fn_args f))"
      using m by (auto simp: list_all_iff dest: in_set_dropD)
    from fill_args_mandatory [OF Some [unfolded r] this]
    have "set (drop (length pos) (arg_names f)) \<subseteq> fst ` set kw"
      by (simp add: arg_names_def drop_map)
    with ex show ?thesis by (auto simp: list_ex_iff)
  qed
  with m show ?thesis by blast
qed

theorem every_parameter_mandatory_witness:
  "list_all (\<lambda>a. arg_default a = None) (fn_args solve_python_binding) \<and>
   dispatch solve_python_binding
     [PyArray [0, 1], PyArray [1], PyArray [-1], PyCallable ''res'', PyCallable ''jac'',
      PyCallable ''sens'']
     [(''events'', PyCallable ''events''), (''number_of_events'', PyInt 0),
      (''use_jacobian'', PyBool False), (''rhs_alg_id'', PyArray [1]),
      (''atol'', PyArray [1]), (''rtol'', PyFloat 1),
      (''number_of_sensitivity_parameters'', PyInt 0)] = Inl TypeError"
  using every_parameter_mandatory [of solve_python_binding]
  by (simp add: python_names)

text \<open>
  Claim C3. For every returned \<^verbatim>\<open>Solution\<close>, \<^verbatim>\<open>len(t) == len(y)\<close>; when the
  sensitivity-parameter count is positive, \<^verbatim>\<open>len(yS) == len(t)\<close>, otherwise
  \<^verbatim>\<open>yS\<close> is empty.
\<close>

theorem solution_lengths_aligned:
  assumes "solve n K ps = Some (Inr sol)"
  shows "length (t sol) = length (y sol) \<and>
    (if 0 < ps_number_of_sensitivity_parameters ps
     then length (yS sol) = length (t sol) else yS sol = [])"
proof -
  from solve_Inr [OF assms] obtain st e s where
    r: "run n K ps st (ps_times ps) empty_solution = Some (e, s)" and sol: "sol = finish e s"
    by blast
  from run_inv [OF r empty_inv] have "Solution_inv (ps_number_of_sensitivity_parameters ps) sol"
    by (simp add: sol finish_inv)
  then show ?thesis by (simp add: Solution_inv_def)
qed

theorem solution_lengths_aligned_witness:
  "solve 4 (ramp_stepper False) (ramp_problem 1 1) =
     Some (Inr \<lparr>t = [0, 1, 2], y = [[1], [1 / 2], [0]], yS = [[[0]], [[0]], [[0]]], flag = 0\<rparr>) \<and>
   length (t \<lparr>t = [0, 1, 2], y = [[1], [1 / 2], [0]], yS = [[[0]], [[0]], [[0]]], flag = 0\<rparr>) =
   length (yS \<lparr>t = [0, 1, 2], y = [[1], [1 / 2], [0]], yS = [[[0]], [[0]], [[0]]], flag = (0::int)\<rparr>)"
proof -
  have h: "solve 4 (ramp_stepper False) (ramp_problem 1 1) =
     Some (Inr \<lparr>t = [0, 1, 2], y = [[1], [1 / 2], [0]], yS = [[[0]], [[0]], [[0]]], flag = 0\<rparr>)"
    unfolding solve_def ramp_run_restart by (simp add: finish_def)
  from solution_lengths_aligned [OF h]
  have "length (t \<lparr>t = [0, 1, 2], y = [[1], [1 / 2], [0]], yS = [[[0]], [[0]], [[0]]], flag = 0\<rparr>) =
    length (yS \<lparr>t = [0, 1, 2], y = [[1], [1 / 2], [0]], yS = [[[0]], [[0]], [[0]]], flag = (0::int)\<rparr>)"
    by simp
  with h show ?thesis by (rule conjI)
qed

text \<open>
  Claim C4. For every solve that returns a \<^verbatim>\<open>Solution\<close>: a zero flag means the
  trajectory has all requested output times; a negative flag means a failure of a
  specific kind was reported on the way to a requested time, the trajectory being the
  requested times before it; a positive flag means a terminal event stopped the solve,
  the trajectory being the requested times before the crossing and then the crossing
  time. When crossings lie before their target time, as the specification has it, each
  of the three holds in both directions.
\<close>

theorem flag_encodes_exit_state:
  assumes "solve n K ps = Some (Inr sol)"
  shows "(flag sol = 0 \<longrightarrow> t sol = ps_times ps) \<and>
    (flag sol < 0 \<longrightarrow> ended_in_failure K ps sol) \<and>
    (0 < flag sol \<longrightarrow> stopped_by_terminal_event K ps sol) \<and>
    (crossings_before_target K ps \<longrightarrow>
       (flag sol = 0) = (t sol = ps_times ps) \<and>
       (flag sol < 0) = ended_in_failure K ps sol \<and>
       (0 < flag sol) = stopped_by_terminal_event K ps sol)"
  using flag_forward [OF assms] flag_iff [OF assms] by blast

theorem flag_encodes_exit_state_witness:
  "solve 3 (ramp_stepper True) (ramp_problem 1 0) =
     Some (Inr \<lparr>t = [0, 1, 3 / 2], y = [[1], [1 / 2], [1 / 4]], yS = [], flag = 1\<rparr>) \<and>
   crossings_before_target (ramp_stepper True) (ramp_problem 1 0) \<and>
   stopped_by_terminal_event (ramp_stepper True) (ramp_problem 1 0)
     \<lparr>t = [0, 1, 3 / 2], y = [[1], [1 / 2], [1 / 4]], yS = [], flag = 1\<rparr> \<and>
   \<not> ended_in_failure (ramp_stepper True) (ramp_problem 1 0)
     \<lparr>t = [0, 1, 3 / 2], y = [[1], [1 / 2], [1 / 4]], yS = [], flag = 1\<rparr>"
  using flag_encodes_exit_state [OF ramp_solve_stop] ramp_solve_stop ramp_crossings [of True "ramp_problem 1 0"]
  by simp




end
